theory Spec2Isabelle
  imports Main "HOL-Library.AList" "HOL-Library.Sublist" "HOL-Library.Multiset"
begin

section \<open>Decoded JSON and the Python operations the cog applies to it\<close>

text \<open>
  \<^verbatim>\<open>tle/cogs/codeforces.py\<close> reads the values that \<^verbatim>\<open>resp.json()\<close> decodes: Python's
  \<^verbatim>\<open>None\<close>, \<^verbatim>\<open>bool\<close>, \<^verbatim>\<open>int\<close>, \<^verbatim>\<open>str\<close>, \<^verbatim>\<open>list\<close> and \<^verbatim>\<open>dict\<close> with string keys. A dict is
  an association list read with \<open>map_of\<close>: the first pair of a key is its entry.
  JSON numbers are integers here (every number of the Codeforces API that the cog
  reads is one); Python floats are not modelled. A string is the list of its bytes
  in UTF-8, so a substring is a sublist; where Python would give a character of a
  string (\<^verbatim>\<open>s[0]\<close>, \<^verbatim>\<open>for c in s\<close>) the model gives a byte, and the cog then only
  subscripts such a value with a string or calls \<^verbatim>\<open>.get\<close> on it, which raises for
  either.
\<close>

datatype json =
    JNull
  | JBool bool
  | JInt int
  | JStr string
  | JList "json list"
  | JObj "(string \<times> json) list"

text \<open>
  The exceptions that leave a command unhandled. \<open>TypeOrValueError\<close> stands for the
  outcome of \<^verbatim>\<open>str % int\<close> followed by a subtraction (Python raises \<^verbatim>\<open>TypeError\<close> or
  \<^verbatim>\<open>ValueError\<close> there, by the format string); \<open>RequestError\<close> for an exception of the
  HTTP request other than \<^verbatim>\<open>aiohttp.ClientConnectionError\<close>.
\<close>

datatype py_error =
    TypeError
  | KeyError
  | IndexError
  | AttributeError
  | ValueError
  | TypeOrValueError
  | RequestError

text \<open>\<^verbatim>\<open>j[k]\<close> for a string \<open>k\<close>: only a dict can be read with a string.\<close>

definition getitem :: "json \<Rightarrow> string \<Rightarrow> py_error + json" where
  "getitem j k =
     (case j of
        JObj kvs \<Rightarrow> (case map_of kvs k of None \<Rightarrow> Inl KeyError | Some v \<Rightarrow> Inr v)
      | _ \<Rightarrow> Inl TypeError)"

text \<open>
  \<^verbatim>\<open>j[0]\<close>: the first element of a list, the first character of a string; a dict
  with string keys has no key \<open>0\<close>.
\<close>

definition getitem0 :: "json \<Rightarrow> py_error + json" where
  "getitem0 j =
     (case j of
        JList xs \<Rightarrow> (case xs of [] \<Rightarrow> Inl IndexError | x # _ \<Rightarrow> Inr x)
      | JStr s \<Rightarrow> (case s of [] \<Rightarrow> Inl IndexError | c # _ \<Rightarrow> Inr (JStr [c]))
      | JObj kvs \<Rightarrow> Inl KeyError
      | _ \<Rightarrow> Inl TypeError)"

text \<open>\<^verbatim>\<open>j.get(k)\<close>: \<^verbatim>\<open>None\<close> for a missing key; only a dict has the method.\<close>

definition dict_get :: "json \<Rightarrow> string \<Rightarrow> py_error + json" where
  "dict_get j k =
     (case j of
        JObj kvs \<Rightarrow> Inr (case map_of kvs k of None \<Rightarrow> JNull | Some v \<Rightarrow> v)
      | _ \<Rightarrow> Inl AttributeError)"

text \<open>
  \<^verbatim>\<open>k in j\<close> for a string \<open>k\<close>: membership in a list, substring of a string, key of
  a dict; \<^verbatim>\<open>None\<close>, a bool and an int are not iterable.
\<close>

definition contains :: "string \<Rightarrow> json \<Rightarrow> py_error + bool" where
  "contains k j =
     (case j of
        JList xs \<Rightarrow> Inr (JStr k \<in> set xs)
      | JStr s \<Rightarrow> Inr (sublist k s)
      | JObj kvs \<Rightarrow> Inr (k \<in> set (map fst kvs))
      | _ \<Rightarrow> Inl TypeError)"

text \<open>
  \<^verbatim>\<open>for x in j\<close>: the elements of a list, the characters of a string, the keys of a
  dict.
\<close>

definition iterate :: "json \<Rightarrow> py_error + json list" where
  "iterate j =
     (case j of
        JList xs \<Rightarrow> Inr xs
      | JStr s \<Rightarrow> Inr (map (\<lambda>c. JStr [c]) s)
      | JObj kvs \<Rightarrow> Inr (map JStr (map fst (AList.clearjunk kvs)))
      | _ \<Rightarrow> Inl TypeError)"

text \<open>The truth value of \<^verbatim>\<open>if j:\<close>.\<close>

definition truthy :: "json \<Rightarrow> bool" where
  "truthy j =
     (case j of
        JNull \<Rightarrow> False
      | JBool b \<Rightarrow> b
      | JInt n \<Rightarrow> n \<noteq> 0
      | JStr s \<Rightarrow> s \<noteq> []
      | JList xs \<Rightarrow> xs \<noteq> []
      | JObj kvs \<Rightarrow> kvs \<noteq> [])"

text \<open>\<^verbatim>\<open>j == n\<close> for an int \<open>n\<close> (a bool is the int 0 or 1) and \<^verbatim>\<open>j == s\<close> for a string.\<close>

definition eq_int :: "json \<Rightarrow> int \<Rightarrow> bool" where
  "eq_int j n =
     (case j of
        JInt m \<Rightarrow> m = n
      | JBool b \<Rightarrow> (if b then 1 else 0) = n
      | _ \<Rightarrow> False)"

definition eq_str :: "json \<Rightarrow> string \<Rightarrow> bool" where
  "eq_str j s = (j = JStr s)"

text \<open>
  A member of a tuple used as a dict key or set element is hashed: a list or a dict
  raises \<^verbatim>\<open>TypeError\<close>. Equal hashable values are one key, and \<^verbatim>\<open>True == 1\<close>,
  \<^verbatim>\<open>False == 0\<close>, so a key keeps the number.
\<close>

datatype pykey = KNone | KNum int | KStr string

definition hashable :: "json \<Rightarrow> py_error + pykey" where
  "hashable j =
     (case j of
        JNull \<Rightarrow> Inr KNone
      | JBool b \<Rightarrow> Inr (KNum (if b then 1 else 0))
      | JInt n \<Rightarrow> Inr (KNum n)
      | JStr s \<Rightarrow> Inr (KStr s)
      | _ \<Rightarrow> Inl TypeError)"

text \<open>
  Sequencing: an exception of the first step ends the computation, a value goes on
  to the next step.
\<close>

definition andthen :: "py_error + 'a \<Rightarrow> ('a \<Rightarrow> py_error + 'b) \<Rightarrow> py_error + 'b" where
  "andthen m f = (case m of Inl e \<Rightarrow> Inl e | Inr x \<Rightarrow> f x)"

text \<open>
  A \<^verbatim>\<open>for\<close> loop whose body may raise: the body \<open>f\<close> takes an element and the
  loop's variables and returns the variables, or the exception that ends the loop.
\<close>

fun for_each :: "('a \<Rightarrow> 's \<Rightarrow> py_error + 's) \<Rightarrow> 'a list \<Rightarrow> 's \<Rightarrow> py_error + 's" where
  "for_each f [] s = Inr s"
| "for_each f (x # xs) s = andthen (f x s) (for_each f xs)"

text \<open>
  \<^verbatim>\<open>list(range(start, stop, step))\<close>: \<^verbatim>\<open>ValueError\<close> for a step of zero, an
  ascending list below \<open>stop\<close> for a positive step, a descending list above it
  for a negative one.
\<close>

definition py_range :: "int \<Rightarrow> int \<Rightarrow> int \<Rightarrow> py_error + int list" where
  "py_range start stop step =
     (if step = 0 then Inl ValueError
      else if 0 < step then
        Inr (map (\<lambda>k. start + int k * step) [0..<nat ((stop - start + step - 1) div step)])
      else
        Inr (map (\<lambda>k. start + int k * step) [0..<nat ((start - stop - step - 1) div (- step))]))"

text \<open>
  \<^verbatim>\<open>random.choice(seq)\<close> is \<^verbatim>\<open>seq[self._randbelow(len(seq))]\<close>, and \<^verbatim>\<open>IndexError\<close> for an
  empty sequence. The random number is the argument \<open>draw\<close>, reduced below the
  length; that the draws below the length are equally likely is a fact of Python's
  generator, not of the cog.
\<close>

definition choice :: "nat \<Rightarrow> 'a list \<Rightarrow> py_error + 'a" where
  "choice draw seq = (if seq = [] then Inl IndexError else Inr (seq ! (draw mod length seq)))"

section \<open>What a command does: requests and replies\<close>

text \<open>
  A command is run against the Codeforces API and the chat channel. What it does
  there is the list of its events, in order: the GET requests of \<^verbatim>\<open>query_api\<close> and
  the \<^verbatim>\<open>ctx.send\<close> calls. The f-strings that format values of the API are kept as
  the tuple of their arguments; those that format a handle are the string itself.
  Calls into matplotlib and discord are recorded with their arguments and taken to
  return; \<^verbatim>\<open>logging\<close> calls and the colour bands of the rating chart are left out.
\<close>

text \<open>
  The embed of \<^verbatim>\<open>gitgud\<close>: \<open>title\<close> is \<^verbatim>\<open>f'{index}. {name}'\<close>, \<open>url\<close> is
  \<^verbatim>\<open>f'{CNT_BASE_URL}{contestid}/problem/{index}'\<close>, \<open>description\<close> is
  \<^verbatim>\<open>f'{contestname}\\nRating: {rating}'\<close>.
\<close>

record embed =
  title :: "json \<times> pykey"
  url :: "json \<times> json"
  description :: "json \<times> pykey"

text \<open>
  The figure a command saves and sends. \<open>RatingPlot\<close>: the \<^verbatim>\<open>plt.plot(times, ratings)\<close>
  calls and the legend \<^verbatim>\<open>f'{handle} ({rating})'\<close>. \<open>Histogram\<close>: the arguments
  \<^verbatim>\<open>allratings\<close> and \<^verbatim>\<open>bins\<close> of \<^verbatim>\<open>plt.hist\<close> and the labels \<^verbatim>\<open>f'{handle}: {len(ratings)}'\<close>.
  A \<^verbatim>\<open>datetime\<close> is the integer that \<^verbatim>\<open>fromtimestamp\<close> returns in the model.
\<close>

datatype figure =
    RatingPlot "(int list \<times> json list) list" "(string \<times> json) list"
  | Histogram "pykey list list" "int list" "(string \<times> nat) list"

type_synonym params = "(string \<times> json) list"

datatype event =
    Request string "params option"
  | Send string
  | SendEmbed string embed
  | SendFile figure

text \<open>
  What \<^verbatim>\<open>self.session.get(url, params=params)\<close> and \<^verbatim>\<open>resp.json()\<close> come to: the
  decoded body, an \<^verbatim>\<open>aiohttp.ClientConnectionError\<close>, or another exception. The API
  answers a request by the events so far, the path and the parameters.
\<close>

datatype http_outcome = Decoded json | ClientConnectionError | OtherException

type_synonym api = "event list \<Rightarrow> string \<Rightarrow> params option \<Rightarrow> http_outcome"

definition query_api ::
  "api \<Rightarrow> event list \<Rightarrow> string \<Rightarrow> params option \<Rightarrow> event list \<times> (py_error + json)" where
  "query_api env evs path ps =
     (evs @ [Request path ps],
      case env evs path ps of
        Decoded j \<Rightarrow> Inr j
      | ClientConnectionError \<Rightarrow> Inr JNull
      | OtherException \<Rightarrow> Inl RequestError)"

text \<open>
  Sequencing inside a command: \<open>await\<close> takes the events and the value of a step
  that has events of its own (a request); \<open>compute\<close> a step that has none. An
  exception ends the command with the events so far.
\<close>

definition await ::
  "event list \<times> (py_error + 'a) \<Rightarrow> (event list \<Rightarrow> 'a \<Rightarrow> event list \<times> (py_error + 'b)) \<Rightarrow>
   event list \<times> (py_error + 'b)" where
  "await m f = (case snd m of Inl e \<Rightarrow> (fst m, Inl e) | Inr x \<Rightarrow> f (fst m) x)"

definition compute ::
  "event list \<Rightarrow> py_error + 'a \<Rightarrow> ('a \<Rightarrow> event list \<times> (py_error + 'b)) \<Rightarrow>
   event list \<times> (py_error + 'b)" where
  "compute evs m f = (case m of Inl e \<Rightarrow> (evs, Inl e) | Inr x \<Rightarrow> f x)"

section \<open>The gitgud command\<close>

definition round_rating :: "int \<Rightarrow> int" where
  "round_rating r =
     (let rem = r mod 100;
          r' = r - rem
      in if rem \<ge> 50 then r' + 100 else r')"

text \<open>
  Lines 47 to 51: the user's rating, 500 when \<^verbatim>\<open>.get('rating')\<close> gives \<^verbatim>\<open>None\<close>,
  rounded. \<^verbatim>\<open>round_rating\<close> computes with \<^verbatim>\<open>%\<close> and \<^verbatim>\<open>-\<close>: a bool counts as 0 or
  1, and any other value raises.
\<close>

definition bucket :: "json \<Rightarrow> py_error + int" where
  "bucket infojson =
     andthen (getitem infojson ''result'') (\<lambda>result.
     andthen (getitem0 result) (\<lambda>user.
     andthen (dict_get user ''rating'') (\<lambda>user_rating.
     (case user_rating of
        JNull \<Rightarrow> Inr (round_rating 500)
      | JInt n \<Rightarrow> Inr (round_rating n)
      | JBool b \<Rightarrow> Inr (round_rating (if b then 1 else 0))
      | JStr s \<Rightarrow> Inl TypeOrValueError
      | _ \<Rightarrow> Inl TypeError))))"

text \<open>
  \<^verbatim>\<open>recommendations\<close> is a dict from \<^verbatim>\<open>(name, rating)\<close> to \<^verbatim>\<open>(contestid, index)\<close>, in
  insertion order: an association list with distinct keys. Storing under a key that
  is there replaces the value in place (\<open>AList.update\<close>), \<^verbatim>\<open>pop(key, None)\<close> removes
  the key if it is there (\<open>AList.delete\<close>).
\<close>

type_synonym recs = "((pykey \<times> pykey) \<times> (json \<times> json)) list"

text \<open>Lines 55 to 62, the body of the loop over the problems.\<close>

definition consider_problem :: "int \<Rightarrow> json \<Rightarrow> recs \<Rightarrow> py_error + recs" where
  "consider_problem user_rating problem recommendations =
     andthen (getitem problem ''tags'') (\<lambda>tags.
     andthen (contains ''*special'' tags) (\<lambda>special.
     if special then Inr recommendations else
     andthen (dict_get problem ''rating'') (\<lambda>r.
     if \<not> eq_int r user_rating then Inr recommendations else
     andthen (contains ''contestId'' problem) (\<lambda>has_contest.
     if \<not> has_contest then Inr recommendations else
     andthen (getitem problem ''name'') (\<lambda>name.
     andthen (getitem problem ''contestId'') (\<lambda>contestid.
     andthen (getitem problem ''index'') (\<lambda>index.
     andthen (getitem problem ''rating'') (\<lambda>rating.
     andthen (hashable name) (\<lambda>kname.
     andthen (hashable rating) (\<lambda>krating.
     Inr (AList.update (kname, krating) (contestid, index) recommendations)))))))))))"

text \<open>Lines 65 to 69, the body of the loop over the submissions.\<close>

definition drop_solved :: "json \<Rightarrow> recs \<Rightarrow> py_error + recs" where
  "drop_solved sub recommendations =
     andthen (getitem sub ''problem'') (\<lambda>problem.
     andthen (getitem sub ''verdict'') (\<lambda>verdict.
     if \<not> eq_str verdict ''OK'' then Inr recommendations else
     andthen (contains ''rating'' problem) (\<lambda>has_rating.
     if \<not> has_rating then Inr recommendations else
     andthen (getitem problem ''name'') (\<lambda>name.
     andthen (getitem problem ''rating'') (\<lambda>rating.
     andthen (hashable name) (\<lambda>kname.
     andthen (hashable rating) (\<lambda>krating.
     Inr (AList.delete (kname, krating) recommendations))))))))"

text \<open>Lines 47 to 69: \<^verbatim>\<open>recommendations\<close> as line 71 finds it.\<close>

definition recommend :: "json \<Rightarrow> json \<Rightarrow> json \<Rightarrow> py_error + recs" where
  "recommend probjson infojson subsjson =
     andthen (bucket infojson) (\<lambda>user_rating.
     andthen (getitem probjson ''result'') (\<lambda>presult.
     andthen (getitem presult ''problems'') (\<lambda>problems.
     andthen (iterate problems) (\<lambda>ps.
     andthen (for_each (consider_problem user_rating) ps []) (\<lambda>candidates.
     andthen (getitem subsjson ''result'') (\<lambda>subs.
     andthen (iterate subs) (\<lambda>ss.
     for_each drop_solved ss candidates)))))))"

text \<open>
  The command, lines 43 to 88. \<open>draw\<close> is the random number of \<^verbatim>\<open>random.choice\<close>.
  The result is the events and \<open>Inr ()\<close>, or the exception that ended the command.
\<close>

definition gitgud :: "api \<Rightarrow> nat \<Rightarrow> string \<Rightarrow> event list \<times> (py_error + unit)" where
  "gitgud env draw handle =
     await (query_api env [] ''problemset.problems'' None) (\<lambda>evs1 probjson.
     await (query_api env evs1 ''user.info'' (Some [(''handles'', JStr handle)])) (\<lambda>evs2 infojson.
     await (query_api env evs2 ''user.status'' (Some [(''handle'', JStr handle)])) (\<lambda>evs3 subsjson.
     compute evs3 (recommend probjson infojson subsjson) (\<lambda>recommendations.
     if recommendations = [] then
       (evs3 @ [Send (handle @ '' is already too gud'')], Inr ())
     else
       compute evs3 (choice draw (map fst recommendations)) (\<lambda>chosen.
       compute evs3 (case map_of recommendations chosen of None \<Rightarrow> Inl KeyError | Some v \<Rightarrow> Inr v)
         (\<lambda>found.
       await (query_api env evs3 ''contest.standings''
                (Some [(''contestId'', fst found), (''from'', JInt 1), (''count'', JInt 1)]))
         (\<lambda>evs4 contestjson.
       compute evs4 (getitem contestjson ''result'') (\<lambda>cresult.
       compute evs4 (getitem cresult ''contest'') (\<lambda>contest.
       compute evs4 (getitem contest ''name'') (\<lambda>contestname.
       (evs4 @ [SendEmbed (''Recommended problem for `'' @ handle @ ''`'')
                  \<lparr>title = (snd found, fst chosen), url = (fst found, snd found),
                   description = (contestname, snd chosen)\<rparr>],
        Inr ())))))))))))"

section \<open>The rating and solved commands\<close>

text \<open>
  The loop over the handles has two ways out besides an exception: the next
  iteration with the loop's variables, or the \<^verbatim>\<open>return\<close> of the command.
\<close>

datatype 'v step = Continue 'v | Return

fun for_handles ::
  "(string \<Rightarrow> event list \<Rightarrow> 'v \<Rightarrow> event list \<times> (py_error + 'v step)) \<Rightarrow>
   string list \<Rightarrow> event list \<Rightarrow> 'v \<Rightarrow> event list \<times> (py_error + 'v step)" where
  "for_handles body [] evs v = (evs, Inr (Continue v))"
| "for_handles body (h # hs) evs v =
     (case body h evs v of
        (evs', Inr (Continue v')) \<Rightarrow> for_handles body hs evs' v'
      | (evs', Inr Return) \<Rightarrow> (evs', Inr Return)
      | (evs', Inl e) \<Rightarrow> (evs', Inl e))"

text \<open>
  Lines 101 to 111 of \<^verbatim>\<open>rating\<close>, and the same text at lines 156 to 166 of \<^verbatim>\<open>solved\<close>:
  the message to send before returning, or \<open>None\<close> when the response is neither
  \<^verbatim>\<open>None\<close> nor \<^verbatim>\<open>FAILED\<close>.
\<close>

definition reply_failure :: "string \<Rightarrow> json \<Rightarrow> py_error + string option" where
  "reply_failure handle respjson =
     (if respjson = JNull then Inr (Some ''Error connecting to Codeforces API'')
      else
        andthen (getitem respjson ''status'') (\<lambda>status.
        if eq_str status ''FAILED'' then
          andthen (getitem respjson ''comment'') (\<lambda>comment.
          andthen (contains ''not found'' comment) (\<lambda>not_found.
          if not_found then Inr (Some (''Handle not found: `'' @ handle @ ''`''))
          else Inr (Some ''Codeforces API denied the request, please make sure handles are valid.'')))
        else Inr None))"

text \<open>
  Lines 116 to 118, the body of the loop over the contests. \<^verbatim>\<open>datetime.fromtimestamp\<close>
  is the parameter \<open>fromtimestamp\<close>: which integers it rejects depends on the
  platform. A bool is passed as 0 or 1, anything else but an int is a \<^verbatim>\<open>TypeError\<close>.
\<close>

definition add_contest ::
  "(int \<Rightarrow> py_error + int) \<Rightarrow> json \<Rightarrow> json list \<times> int list \<Rightarrow> py_error + json list \<times> int list" where
  "add_contest fromtimestamp contest v =
     andthen (getitem contest ''newRating'') (\<lambda>new_rating.
     andthen (getitem contest ''ratingUpdateTimeSeconds'') (\<lambda>seconds.
     andthen (case seconds of
                JInt n \<Rightarrow> fromtimestamp n
              | JBool b \<Rightarrow> fromtimestamp (if b then 1 else 0)
              | _ \<Rightarrow> Inl TypeError) (\<lambda>time.
     Inr (fst v @ [new_rating], snd v @ [time]))))"

text \<open>
  Lines 113 to 120. The variables of the loop over the handles are the
  \<^verbatim>\<open>plt.plot\<close> calls so far and \<^verbatim>\<open>rate\<close>; \<^verbatim>\<open>ratings[-1]\<close> of an empty list is an
  \<^verbatim>\<open>IndexError\<close>.
\<close>

type_synonym rating_vars = "(int list \<times> json list) list \<times> json list"

definition plot_ratings ::
  "(int \<Rightarrow> py_error + int) \<Rightarrow> json \<Rightarrow> rating_vars \<Rightarrow> py_error + rating_vars" where
  "plot_ratings fromtimestamp respjson v =
     andthen (getitem respjson ''result'') (\<lambda>contests.
     andthen (iterate contests) (\<lambda>cs.
     andthen (for_each (add_contest fromtimestamp) cs ([], [])) (\<lambda>rt.
     if fst rt = [] then Inl IndexError
     else Inr (fst v @ [(snd rt, fst rt)], snd v @ [last (fst rt)]))))"

text \<open>Lines 100 to 120, the body of the loop over the handles.\<close>

definition rating_handle ::
  "api \<Rightarrow> (int \<Rightarrow> py_error + int) \<Rightarrow> string \<Rightarrow> event list \<Rightarrow> rating_vars \<Rightarrow>
   event list \<times> (py_error + rating_vars step)" where
  "rating_handle env fromtimestamp handle evs v =
     await (query_api env evs ''user.rating'' (Some [(''handle'', JStr handle)])) (\<lambda>evs1 respjson.
     compute evs1 (reply_failure handle respjson) (\<lambda>failure.
     case failure of
       Some message \<Rightarrow> (evs1 @ [Send message], Inr Return)
     | None \<Rightarrow>
         compute evs1 (plot_ratings fromtimestamp respjson v) (\<lambda>v'.
         (evs1, Inr (Continue v')))))"

text \<open>The command, lines 93 to 143.\<close>

definition rating ::
  "api \<Rightarrow> (int \<Rightarrow> py_error + int) \<Rightarrow> string list \<Rightarrow> event list \<times> (py_error + unit)" where
  "rating env fromtimestamp handles =
     (if handles = [] \<or> length handles > 5 then
        ([Send ''Number of handles must be between 1 and 5''], Inr ())
      else
        await (for_handles (rating_handle env fromtimestamp) handles [] ([], [])) (\<lambda>evs s.
        case s of
          Return \<Rightarrow> (evs, Inr ())
        | Continue v \<Rightarrow> (evs @ [SendFile (RatingPlot (fst v) (zip handles (snd v)))], Inr ())))"

text \<open>
  Lines 171 to 177, the body of the loop over the submissions. \<^verbatim>\<open>problems\<close> is a
  set of \<^verbatim>\<open>(name, rating)\<close> tuples: a list without duplicates. The order in which
  Python iterates over a set is not fixed by the language; the list keeps the order
  of insertion, and nothing below depends on it.
\<close>

definition add_solved :: "json \<Rightarrow> (pykey \<times> pykey) list \<Rightarrow> py_error + (pykey \<times> pykey) list" where
  "add_solved submission problems =
     andthen (getitem submission ''verdict'') (\<lambda>verdict.
     if \<not> eq_str verdict ''OK'' then Inr problems else
     andthen (getitem submission ''problem'') (\<lambda>problem.
     andthen (getitem problem ''name'') (\<lambda>name.
     andthen (dict_get problem ''rating'') (\<lambda>rating.
     if \<not> truthy rating then Inr problems else
     andthen (hashable name) (\<lambda>kname.
     andthen (hashable rating) (\<lambda>krating.
     Inr (if (kname, krating) \<in> set problems then problems
          else problems @ [(kname, krating)])))))))"

text \<open>Lines 168 to 177: the set \<^verbatim>\<open>problems\<close> of a response.\<close>

definition solved_problems :: "json \<Rightarrow> py_error + (pykey \<times> pykey) list" where
  "solved_problems respjson =
     andthen (getitem respjson ''result'') (\<lambda>submissions.
     andthen (iterate submissions) (\<lambda>ss.
     for_each add_solved ss []))"

text \<open>Lines 155 to 180, the body of the loop over the handles.\<close>

definition solved_handle ::
  "api \<Rightarrow> string \<Rightarrow> event list \<Rightarrow> pykey list list \<Rightarrow> event list \<times> (py_error + pykey list list step)" where
  "solved_handle env handle evs allratings =
     await (query_api env evs ''user.status'' (Some [(''handle'', JStr handle)])) (\<lambda>evs1 respjson.
     compute evs1 (reply_failure handle respjson) (\<lambda>failure.
     case failure of
       Some message \<Rightarrow> (evs1 @ [Send message], Inr Return)
     | None \<Rightarrow>
         compute evs1 (solved_problems respjson) (\<lambda>problems.
         (evs1, Inr (Continue (allratings @ [map snd problems]))))))"

text \<open>Lines 183 and 184: the bin edges for a number of handles.\<close>

definition histbins :: "nat \<Rightarrow> py_error + int list" where
  "histbins n = (let step = (if n = 1 then 100 else 200) in py_range 500 (3800 + step) step)"

text \<open>The command, lines 148 to 199.\<close>

definition solved :: "api \<Rightarrow> string list \<Rightarrow> event list \<times> (py_error + unit)" where
  "solved env handles =
     (if handles = [] \<or> length handles > 5 then
        ([Send ''Number of handles must be between 1 and 5''], Inr ())
      else
        await (for_handles (solved_handle env) handles [] []) (\<lambda>evs s.
        case s of
          Return \<Rightarrow> (evs, Inr ())
        | Continue allratings \<Rightarrow>
            compute evs (histbins (length handles)) (\<lambda>bins.
            (evs @ [SendFile (Histogram allratings bins
                       (zip handles (map length allratings)))],
             Inr ()))))"

section \<open>The sets the specification speaks of\<close>

text \<open>
  The lists that the loops run over: \<^verbatim>\<open>probjson['result']['problems']\<close> and
  \<^verbatim>\<open>subsjson['result']\<close> (also \<^verbatim>\<open>respjson['result']\<close> of \<^verbatim>\<open>solved\<close>).
\<close>

definition problems_of :: "json \<Rightarrow> py_error + json list" where
  "problems_of probjson =
     andthen (getitem probjson ''result'') (\<lambda>presult.
     andthen (getitem presult ''problems'') iterate)"

definition submissions_of :: "json \<Rightarrow> py_error + json list" where
  "submissions_of subsjson = andthen (getitem subsjson ''result'') iterate"

text \<open>The \<^verbatim>\<open>(name, rating)\<close> pair of a problem, as a key.\<close>

definition problem_key :: "json \<Rightarrow> py_error + pykey \<times> pykey" where
  "problem_key problem =
     andthen (getitem problem ''name'') (\<lambda>name.
     andthen (getitem problem ''rating'') (\<lambda>rating.
     andthen (hashable name) (\<lambda>kname.
     andthen (hashable rating) (\<lambda>krating.
     Inr (kname, krating)))))"

text \<open>
  A candidate for the bucket \<open>b\<close>: a problem whose tags do not contain
  \<^verbatim>\<open>'*special'\<close>, whose rating equals \<open>b\<close> and which has a \<^verbatim>\<open>contestId\<close>. Its entry maps
  its key to \<^verbatim>\<open>(contestId, index)\<close>.
\<close>

definition candidate :: "int \<Rightarrow> json \<Rightarrow> bool" where
  "candidate b problem =
     (andthen (getitem problem ''tags'') (contains ''*special'') = Inr False \<and>
      andthen (dict_get problem ''rating'') (\<lambda>r. Inr (eq_int r b)) = Inr True \<and>
      contains ''contestId'' problem = Inr True)"

definition candidate_entry :: "int \<Rightarrow> json \<Rightarrow> ((pykey \<times> pykey) \<times> (json \<times> json)) option" where
  "candidate_entry b problem =
     (if candidate b problem then
        (case (problem_key problem, getitem problem ''contestId'', getitem problem ''index'') of
           (Inr k, Inr contestid, Inr index) \<Rightarrow> Some (k, (contestid, index))
         | _ \<Rightarrow> None)
      else None)"

definition candidate_entries :: "int \<Rightarrow> json list \<Rightarrow> recs" where
  "candidate_entries b ps = List.map_filter (candidate_entry b) ps"

text \<open>
  The pairs the user has solved: the \<^verbatim>\<open>(name, rating)\<close> of the problem of every
  submission whose verdict is \<^verbatim>\<open>"OK"\<close> and whose problem has a \<^verbatim>\<open>rating\<close> field.
\<close>

definition accepted :: "json \<Rightarrow> bool" where
  "accepted sub =
     (andthen (getitem sub ''verdict'') (\<lambda>v. Inr (eq_str v ''OK'')) = Inr True \<and>
      andthen (getitem sub ''problem'') (contains ''rating'') = Inr True)"

definition solved_key :: "json \<Rightarrow> (pykey \<times> pykey) option" where
  "solved_key sub =
     (if accepted sub then
        (case andthen (getitem sub ''problem'') problem_key of
           Inr k \<Rightarrow> Some k
         | Inl e \<Rightarrow> None)
      else None)"

definition solved_keys :: "json list \<Rightarrow> (pykey \<times> pykey) list" where
  "solved_keys ss = List.map_filter solved_key ss"

text \<open>
  The pair of the problem of a submission as \<^verbatim>\<open>solved\<close> reads it: the name with
  \<^verbatim>\<open>['name']\<close>, the rating with \<^verbatim>\<open>.get('rating')\<close>.
\<close>

definition solved_pair :: "json \<Rightarrow> py_error + pykey \<times> pykey" where
  "solved_pair sub =
     andthen (getitem sub ''problem'') (\<lambda>problem.
     andthen (getitem problem ''name'') (\<lambda>name.
     andthen (dict_get problem ''rating'') (\<lambda>rating.
     andthen (hashable name) (\<lambda>kname.
     andthen (hashable rating) (\<lambda>krating.
     Inr (kname, krating))))))"

text \<open>
  Two readings of a submission that counts. \<open>ok_defined\<close>: the verdict is \<^verbatim>\<open>"OK"\<close> and
  the rating is defined (not \<^verbatim>\<open>None\<close>). \<open>ok_truthy\<close>: the verdict is \<^verbatim>\<open>"OK"\<close> and the
  rating is true as a condition (not \<^verbatim>\<open>None\<close>, and not 0, \<^verbatim>\<open>False\<close> or empty).
\<close>

definition ok_defined :: "json \<Rightarrow> bool" where
  "ok_defined sub =
     (andthen (getitem sub ''verdict'') (\<lambda>v. Inr (eq_str v ''OK'')) = Inr True \<and>
      andthen (getitem sub ''problem'') (\<lambda>problem.
      andthen (dict_get problem ''rating'') (\<lambda>r. Inr (r \<noteq> JNull))) = Inr True)"

definition ok_truthy :: "json \<Rightarrow> bool" where
  "ok_truthy sub =
     (andthen (getitem sub ''verdict'') (\<lambda>v. Inr (eq_str v ''OK'')) = Inr True \<and>
      andthen (getitem sub ''problem'') (\<lambda>problem.
      andthen (dict_get problem ''rating'') (\<lambda>r. Inr (truthy r))) = Inr True)"

definition pairs_where :: "(json \<Rightarrow> bool) \<Rightarrow> json list \<Rightarrow> (pykey \<times> pykey) list" where
  "pairs_where counts ss =
     List.map_filter
       (\<lambda>sub. if counts sub then (case solved_pair sub of Inr k \<Rightarrow> Some k | Inl e \<Rightarrow> None)
              else None) ss"

text \<open>The events that send a chart, and the requests of a loop over handles.\<close>

definition is_file :: "event \<Rightarrow> bool" where
  "is_file ev = (case ev of SendFile f \<Rightarrow> True | _ \<Rightarrow> False)"

definition requests :: "string \<Rightarrow> string list \<Rightarrow> event list" where
  "requests path handles = map (\<lambda>h. Request path (Some [(''handle'', JStr h)])) handles"

section \<open>Sample responses\<close>

text \<open>
  Responses in the shape the Codeforces API sends them, and an API that answers with
  them: the theorems below are applied to these.
\<close>

definition sample_problem :: "string \<Rightarrow> int \<Rightarrow> int \<Rightarrow> json" where
  "sample_problem name r cid =
     JObj [(''contestId'', JInt cid), (''index'', JStr ''A''), (''name'', JStr name),
           (''rating'', JInt r), (''tags'', JList [JStr ''math''])]"

definition sample_probjson :: json where
  "sample_probjson =
     JObj [(''status'', JStr ''OK''),
           (''result'', JObj [(''problems'',
              JList [sample_problem ''Watermelon'' 1500 4,
                     sample_problem ''Theatre Square'' 1500 1,
                     sample_problem ''Spreadsheet'' 1600 1])])]"

definition sample_infojson :: json where
  "sample_infojson =
     JObj [(''status'', JStr ''OK''),
           (''result'', JList [JObj [(''handle'', JStr ''tourist''), (''rating'', JInt 1460)]])]"

definition sample_submission :: "string \<Rightarrow> int \<Rightarrow> string \<Rightarrow> json" where
  "sample_submission name r verdict =
     JObj [(''verdict'', JStr verdict),
           (''problem'', JObj [(''name'', JStr name), (''rating'', JInt r)])]"

definition sample_subsjson :: json where
  "sample_subsjson =
     JObj [(''status'', JStr ''OK''),
           (''result'', JList [sample_submission ''Theatre Square'' 1500 ''OK'',
                               sample_submission ''Theatre Square'' 1500 ''OK'',
                               sample_submission ''Watermelon'' 1500 ''WRONG_ANSWER''])]"

definition sample_contestjson :: json where
  "sample_contestjson =
     JObj [(''status'', JStr ''OK''),
           (''result'', JObj [(''contest'', JObj [(''name'', JStr ''Beta Round 4'')])])]"

definition sample_ratingjson :: json where
  "sample_ratingjson =
     JObj [(''status'', JStr ''OK''),
           (''result'', JList [JObj [(''newRating'', JInt 1500),
                                     (''ratingUpdateTimeSeconds'', JInt 1000)]])]"

definition sample_failed :: json where
  "sample_failed =
     JObj [(''status'', JStr ''FAILED''),
           (''comment'', JStr ''handle: User with handle nobody not found'')]"

definition sample_empty :: json where
  "sample_empty = JObj [(''status'', JStr ''OK''), (''result'', JList [])]"

definition sample_api :: api where
  "sample_api evs path ps =
     (if path = ''problemset.problems'' then Decoded sample_probjson
      else if path = ''user.info'' then Decoded sample_infojson
      else if path = ''contest.standings'' then Decoded sample_contestjson
      else if ps = Some [(''handle'', JStr ''nobody'')] then Decoded sample_failed
      else if ps = Some [(''handle'', JStr ''offline'')] then ClientConnectionError
      else if ps = Some [(''handle'', JStr ''newcomer'')] then Decoded sample_empty
      else if path = ''user.status'' then Decoded sample_subsjson
      else if path = ''user.rating'' then Decoded sample_ratingjson
      else OtherException)"

section \<open>Sequencing and the loops\<close>

lemma andthen_Inl [simp]: "andthen (Inl e) f = Inl e"
  by (simp add: andthen_def)

lemma andthen_Inr [simp]: "andthen (Inr x) f = f x"
  by (simp add: andthen_def)

lemma andthen_eq_Inr: "andthen m f = Inr y \<longleftrightarrow> (\<exists>x. m = Inr x \<and> f x = Inr y)"
  by (cases m) simp_all

lemma await_Inl [simp]: "await (evs, Inl e) f = (evs, Inl e)"
  by (simp add: await_def)

lemma await_Inr [simp]: "await (evs, Inr x) f = f evs x"
  by (simp add: await_def)

lemma compute_Inl [simp]: "compute evs (Inl e) f = (evs, Inl e)"
  by (simp add: compute_def)

lemma compute_Inr [simp]: "compute evs (Inr x) f = f x"
  by (simp add: compute_def)

lemma consider_problem_entry:
  assumes "consider_problem b p recs = Inr recs'"
  shows "recs' = (case candidate_entry b p of None \<Rightarrow> recs | Some kv \<Rightarrow> AList.update (fst kv) (snd kv) recs)"
  using assms
  unfolding consider_problem_def candidate_entry_def candidate_def problem_key_def
  by (auto simp: andthen_eq_Inr split: if_splits)

lemma drop_solved_key:
  assumes "drop_solved s recs = Inr recs'"
  shows "recs' = (case solved_key s of None \<Rightarrow> recs | Some k \<Rightarrow> AList.delete k recs)"
  using assms
  unfolding drop_solved_def solved_key_def accepted_def problem_key_def
  by (auto simp: andthen_eq_Inr split: if_splits)

lemma candidate_entries_Cons:
  "candidate_entries b (p # ps) =
     (case candidate_entry b p of None \<Rightarrow> candidate_entries b ps | Some kv \<Rightarrow> kv # candidate_entries b ps)"
  by (simp add: candidate_entries_def List.map_filter_simps split: option.splits)

lemma solved_keys_Cons:
  "solved_keys (s # ss) =
     (case solved_key s of None \<Rightarrow> solved_keys ss | Some k \<Rightarrow> k # solved_keys ss)"
  by (simp add: solved_keys_def List.map_filter_simps split: option.splits)

lemma candidates_loop:
  "for_each (consider_problem b) ps recs = Inr recs' \<Longrightarrow>
     map_of recs' = map_of (rev (candidate_entries b ps) @ recs) \<and>
     (distinct (map fst recs) \<longrightarrow> distinct (map fst recs'))"
proof (induction ps arbitrary: recs)
  case Nil
  then show ?case by (simp add: candidate_entries_def List.map_filter_simps)
next
  case (Cons p ps)
  from Cons.prems obtain recs1 where
    step: "consider_problem b p recs = Inr recs1" and
    rest: "for_each (consider_problem b) ps recs1 = Inr recs'"
    by (auto simp: andthen_eq_Inr)
  note ih = Cons.IH [OF rest]
  show ?case
  proof (cases "candidate_entry b p")
    case None
    with consider_problem_entry [OF step] have "recs1 = recs" by simp
    with ih None show ?thesis by (simp add: candidate_entries_Cons)
  next
    case (Some kv)
    with consider_problem_entry [OF step] have r1: "recs1 = AList.update (fst kv) (snd kv) recs" by simp
    have "map_of recs1 = map_of (kv # recs)"
      by (simp add: r1 update_conv' fun_eq_iff)
    then have "map_of (rev (candidate_entries b ps) @ recs1) =
               map_of (rev (candidate_entries b ps) @ kv # recs)"
      by (simp add: map_of_append)
    moreover have "distinct (map fst recs) \<longrightarrow> distinct (map fst recs1)"
      by (simp add: r1 distinct_update)
    ultimately show ?thesis using ih Some by (simp add: candidate_entries_Cons)
  qed
qed

lemma solved_loop:
  "for_each drop_solved ss recs = Inr recs' \<Longrightarrow>
     map_of recs' = map_of recs |` (- set (solved_keys ss)) \<and>
     (distinct (map fst recs) \<longrightarrow> distinct (map fst recs'))"
proof (induction ss arbitrary: recs)
  case Nil
  then show ?case by (simp add: solved_keys_def List.map_filter_simps)
next
  case (Cons s ss)
  from Cons.prems obtain recs1 where
    step: "drop_solved s recs = Inr recs1" and
    rest: "for_each drop_solved ss recs1 = Inr recs'"
    by (auto simp: andthen_eq_Inr)
  note ih = Cons.IH [OF rest]
  show ?case
  proof (cases "solved_key s")
    case None
    with drop_solved_key [OF step] have "recs1 = recs" by simp
    with ih None show ?thesis by (simp add: solved_keys_Cons)
  next
    case (Some k)
    with drop_solved_key [OF step] have r1: "recs1 = AList.delete k recs" by simp
    have "map_of recs1 |` (- set (solved_keys ss)) = map_of recs |` (- insert k (set (solved_keys ss)))"
      by (auto simp: r1 delete_conv' restrict_map_def fun_eq_iff)
    moreover have "distinct (map fst recs) \<longrightarrow> distinct (map fst recs1)"
      by (simp add: r1 distinct_delete)
    ultimately show ?thesis using ih Some by (simp add: solved_keys_Cons)
  qed
qed

lemma recommend_parts:
  assumes "recommend probjson infojson subsjson = Inr recs"
  shows "\<exists>b ps ss candidates. bucket infojson = Inr b \<and> problems_of probjson = Inr ps \<and>
     submissions_of subsjson = Inr ss \<and>
     for_each (consider_problem b) ps [] = Inr candidates \<and>
     for_each drop_solved ss candidates = Inr recs"
  using assms unfolding recommend_def problems_of_def submissions_of_def
  by (auto simp: andthen_eq_Inr)

lemma for_each_member:
  "for_each f xs s = Inr s' \<Longrightarrow> x \<in> set xs \<Longrightarrow> \<exists>s0 s1. f x s0 = Inr s1"
  by (induction xs arbitrary: s) (auto simp: andthen_eq_Inr)

lemma candidate_has_entry:
  "consider_problem b p recs = Inr recs' \<Longrightarrow> candidate b p \<Longrightarrow> candidate_entry b p \<noteq> None"
  unfolding consider_problem_def candidate_entry_def candidate_def problem_key_def
  by (auto simp: andthen_eq_Inr split: if_splits)

lemma accepted_has_key:
  "drop_solved s recs = Inr recs' \<Longrightarrow> accepted s \<Longrightarrow> solved_key s \<noteq> None"
  unfolding drop_solved_def solved_key_def accepted_def problem_key_def
  by (auto simp: andthen_eq_Inr split: if_splits)

lemma round_rating_500: "round_rating 500 = 500"
  by (simp add: round_rating_def)

lemma bucket_cases:
  assumes "bucket infojson = Inr b"
  shows "\<exists>user ur. andthen (getitem infojson ''result'') getitem0 = Inr user \<and>
     dict_get user ''rating'' = Inr ur \<and>
     (ur = JNull \<and> b = 500 \<or> (\<exists>n. eq_int ur n \<and> b = round_rating n))"
proof -
  from assms obtain result user ur where
    u: "getitem infojson ''result'' = Inr result" "getitem0 result = Inr user"
       "dict_get user ''rating'' = Inr ur" and
    b: "(case ur of
           JNull \<Rightarrow> Inr (round_rating 500)
         | JInt n \<Rightarrow> Inr (round_rating n)
         | JBool t \<Rightarrow> Inr (round_rating (if t then 1 else 0))
         | JStr s \<Rightarrow> Inl TypeOrValueError
         | _ \<Rightarrow> Inl TypeError) = Inr b"
    unfolding bucket_def by (auto simp: andthen_eq_Inr)
  from b have "ur = JNull \<and> b = 500 \<or> (\<exists>n. eq_int ur n \<and> b = round_rating n)"
    by (cases ur) (auto simp: eq_int_def round_rating_500)
  with u show ?thesis by (auto simp: andthen_eq_Inr)
qed

lemma recommend_None:
  "probjson = JNull \<or> infojson = JNull \<or> subsjson = JNull \<Longrightarrow>
   \<exists>e. recommend probjson infojson subsjson = Inl e"
  unfolding recommend_def
  by (auto simp: andthen_def getitem_def bucket_def split: sum.splits)

lemma recommend_all_None: "recommend JNull JNull JNull = Inl TypeError"
  by (simp add: recommend_def bucket_def getitem_def)

lemma query_api_events: "query_api env evs path ps = (evs', r) \<Longrightarrow> evs' = evs @ [Request path ps]"
  by (auto simp: query_api_def)



section \<open>The loop over the handles\<close>

lemma for_handles_append:
  "for_handles body before evs v = (evs', Inr (Continue v')) \<Longrightarrow>
   for_handles body (before @ hs) evs v = for_handles body hs evs' v'"
  by (induction before arbitrary: evs v)
     (auto split: prod.splits sum.splits step.splits)

lemma for_handles_continue:
  assumes step: "\<And>h evs v evs' v'. body h evs v = (evs', Inr (Continue v')) \<Longrightarrow>
                  evs' = evs @ [Request path (Some [(''handle'', JStr h)])]"
    and run: "for_handles body hs evs v = (evs', Inr (Continue v'))"
  shows "evs' = evs @ requests path hs"
  using run
proof (induction hs arbitrary: evs v)
  case Nil
  then show ?case by (simp add: requests_def)
next
  case (Cons h hs)
  from Cons.prems obtain evs1 v1 where
    b: "body h evs v = (evs1, Inr (Continue v1))" and
    r: "for_handles body hs evs1 v1 = (evs', Inr (Continue v'))"
    by (auto split: prod.splits sum.splits step.splits)
  from step [OF b] Cons.IH [OF r] show ?case by (simp add: requests_def)
qed

lemma reply_failure_None: "reply_failure h JNull = Inr (Some ''Error connecting to Codeforces API'')"
  by (simp add: reply_failure_def)

lemma reply_failure_FAILED:
  "getitem respjson ''status'' = Inr (JStr ''FAILED'') \<Longrightarrow>
   getitem respjson ''comment'' = Inr comment \<Longrightarrow> contains ''not found'' comment = Inr nf \<Longrightarrow>
   reply_failure h respjson =
     Inr (Some (if nf then ''Handle not found: `'' @ h @ ''`''
                else ''Codeforces API denied the request, please make sure handles are valid.''))"
  by (auto simp: reply_failure_def eq_str_def getitem_def)

lemma reply_failure_ok:
  "getitem respjson ''status'' = Inr status \<Longrightarrow> \<not> eq_str status ''FAILED'' \<Longrightarrow>
   reply_failure h respjson = Inr None"
  by (auto simp: reply_failure_def getitem_def)

lemma rating_handle_continue:
  "rating_handle env fts h evs v = (evs', Inr (Continue v')) \<Longrightarrow>
   evs' = evs @ [Request ''user.rating'' (Some [(''handle'', JStr h)])]"
  unfolding rating_handle_def query_api_def
  by (auto simp: await_def compute_def split: sum.splits option.splits http_outcome.splits)

lemma solved_handle_continue:
  "solved_handle env h evs a = (evs', Inr (Continue a')) \<Longrightarrow>
   evs' = evs @ [Request ''user.status'' (Some [(''handle'', JStr h)])]"
  unfolding solved_handle_def query_api_def
  by (auto simp: await_def compute_def split: sum.splits option.splits http_outcome.splits)

lemma rating_loop_events:
  "for_handles (rating_handle env fts) hs evs v = (evs', Inr (Continue v')) \<Longrightarrow>
   evs' = evs @ requests ''user.rating'' hs"
  by (rule for_handles_continue [where body = "rating_handle env fts"]) (auto dest: rating_handle_continue)

lemma solved_loop_events:
  "for_handles (solved_handle env) hs evs a = (evs', Inr (Continue a')) \<Longrightarrow>
   evs' = evs @ requests ''user.status'' hs"
  by (rule for_handles_continue [where body = "solved_handle env"]) (auto dest: solved_handle_continue)

lemma rating_returns:
  assumes hs: "handles = before @ handle # after" and len: "length handles \<le> 5"
    and run: "for_handles (rating_handle env fts) before [] ([], []) = (evs, Inr (Continue v))"
    and q: "query_api env evs ''user.rating'' (Some [(''handle'', JStr handle)]) = (evs1, Inr respjson)"
    and f: "reply_failure handle respjson = Inr (Some message)"
  shows "rating env fts handles = (evs1 @ [Send message], Inr ())"
proof -
  have "for_handles (rating_handle env fts) handles [] ([], []) =
        for_handles (rating_handle env fts) (handle # after) evs v"
    unfolding hs by (rule for_handles_append [OF run])
  also have "\<dots> = (evs1 @ [Send message], Inr Return)"
    by (simp add: rating_handle_def q f)
  finally show ?thesis using hs len by (simp add: rating_def)
qed

lemma solved_returns:
  assumes hs: "handles = before @ handle # after" and len: "length handles \<le> 5"
    and run: "for_handles (solved_handle env) before [] [] = (evs, Inr (Continue a))"
    and q: "query_api env evs ''user.status'' (Some [(''handle'', JStr handle)]) = (evs1, Inr respjson)"
    and f: "reply_failure handle respjson = Inr (Some message)"
  shows "solved env handles = (evs1 @ [Send message], Inr ())"
proof -
  have "for_handles (solved_handle env) handles [] [] =
        for_handles (solved_handle env) (handle # after) evs a"
    unfolding hs by (rule for_handles_append [OF run])
  also have "\<dots> = (evs1 @ [Send message], Inr Return)"
    by (simp add: solved_handle_def q f)
  finally show ?thesis using hs len by (simp add: solved_def)
qed

lemma no_file_requests: "\<not> list_ex is_file (requests path hs)"
  by (induction hs) (simp_all add: requests_def is_file_def)

lemma pairs_where_Nil: "pairs_where c [] = []"
  by (simp add: pairs_where_def List.map_filter_simps)

lemma pairs_where_Cons:
  "pairs_where c (s # ss) =
     (if c s then (case solved_pair s of Inr k \<Rightarrow> k # pairs_where c ss | Inl e \<Rightarrow> pairs_where c ss)
      else pairs_where c ss)"
  by (simp add: pairs_where_def List.map_filter_simps split: sum.splits)

lemma add_solved_pair:
  assumes "add_solved s problems = Inr problems'"
  shows "(ok_truthy s \<longrightarrow> (\<exists>k. solved_pair s = Inr k)) \<and>
         set problems' = set problems \<union> set (pairs_where ok_truthy [s]) \<and>
         (distinct problems \<longrightarrow> distinct problems')"
  using assms
  unfolding add_solved_def ok_truthy_def solved_pair_def
  by (auto simp: andthen_eq_Inr pairs_where_Cons pairs_where_Nil ok_truthy_def solved_pair_def
           split: if_splits)

lemma pairs_where_set_Cons:
  "set (pairs_where c (s # ss)) = set (pairs_where c [s]) \<union> set (pairs_where c ss)"
  by (auto simp: pairs_where_Cons pairs_where_Nil split: sum.splits)

lemma add_solved_loop:
  "for_each add_solved ss problems = Inr problems' \<Longrightarrow>
     (\<forall>sub\<in>set ss. ok_truthy sub \<longrightarrow> (\<exists>k. solved_pair sub = Inr k)) \<and>
     set problems' = set problems \<union> set (pairs_where ok_truthy ss) \<and>
     (distinct problems \<longrightarrow> distinct problems')"
proof (induction ss arbitrary: problems)
  case Nil
  then show ?case by (simp add: pairs_where_Nil)
next
  case (Cons s ss)
  from Cons.prems obtain problems1 where
    step: "add_solved s problems = Inr problems1" and
    rest: "for_each add_solved ss problems1 = Inr problems'"
    by (auto simp: andthen_eq_Inr)
  from add_solved_pair [OF step] Cons.IH [OF rest] pairs_where_set_Cons [of ok_truthy s ss]
  show ?case by auto
qed

lemma solved_problems_set:
  assumes "solved_problems respjson = Inr problems"
  shows "\<exists>ss. submissions_of respjson = Inr ss \<and>
     (\<forall>sub\<in>set ss. ok_truthy sub \<longrightarrow> (\<exists>k. solved_pair sub = Inr k)) \<and>
     set problems = set (pairs_where ok_truthy ss) \<and> distinct problems"
proof -
  from assms obtain ss where ss: "submissions_of respjson = Inr ss"
    and l: "for_each add_solved ss [] = Inr problems"
    unfolding solved_problems_def submissions_of_def by (auto simp: andthen_eq_Inr)
  from add_solved_loop [OF l] ss show ?thesis by auto
qed

lemma solved_handle_step:
  assumes "solved_handle env h evs a = (evs', Inr (Continue a'))"
  shows "\<exists>respjson problems.
     query_api env evs ''user.status'' (Some [(''handle'', JStr h)]) = (evs', Inr respjson) \<and>
     reply_failure h respjson = Inr None \<and>
     solved_problems respjson = Inr problems \<and> a' = a @ [map snd problems]"
proof -
  obtain evs1 r where q: "query_api env evs ''user.status'' (Some [(''handle'', JStr h)]) = (evs1, r)"
    by (cases "query_api env evs ''user.status'' (Some [(''handle'', JStr h)])")
  show ?thesis using assms unfolding solved_handle_def q
    by (cases r) (auto simp: compute_def split: sum.splits option.splits)
qed

lemma solved_loop_grows:
  "for_handles (solved_handle env) hs evs a = (evs', Inr (Continue a')) \<Longrightarrow>
   \<exists>ext. a' = a @ ext \<and> length ext = length hs"
proof (induction hs arbitrary: evs a)
  case Nil
  then show ?case by simp
next
  case (Cons h hs)
  from Cons.prems obtain evs1 a1 where
    b: "solved_handle env h evs a = (evs1, Inr (Continue a1))" and
    r: "for_handles (solved_handle env) hs evs1 a1 = (evs', Inr (Continue a'))"
    by (auto split: prod.splits sum.splits step.splits)
  from solved_handle_step [OF b] obtain ratings where "a1 = a @ [ratings]" by blast
  with Cons.IH [OF r] show ?case by auto
qed

lemma for_handles_no_file:
  assumes step: "\<And>h evs v evs' r. body h evs v = (evs', r) \<Longrightarrow>
                  \<not> list_ex is_file evs \<Longrightarrow> \<not> list_ex is_file evs'"
    and run: "for_handles body hs evs v = (evs', r)" and clean: "\<not> list_ex is_file evs"
  shows "\<not> list_ex is_file evs'"
  using run clean
proof (induction hs arbitrary: evs v)
  case Nil
  then show ?case by simp
next
  case (Cons h hs)
  obtain evs1 r1 where b: "body h evs v = (evs1, r1)" by (cases "body h evs v")
  from step [OF b Cons.prems(2)] have c1: "\<not> list_ex is_file evs1" .
  show ?case
  proof (cases r1)
    case (Inl e)
    with Cons.prems(1) b c1 show ?thesis by simp
  next
    case (Inr s)
    show ?thesis
    proof (cases s)
      case (Continue v1)
      with Cons.prems(1) b Inr have "for_handles body hs evs1 v1 = (evs', r)" by simp
      from Cons.IH [OF this c1] show ?thesis .
    next
      case Return
      with Cons.prems(1) b c1 Inr show ?thesis by simp
    qed
  qed
qed

lemma solved_handle_no_file:
  "solved_handle env h evs a = (evs', r) \<Longrightarrow> \<not> list_ex is_file evs \<Longrightarrow> \<not> list_ex is_file evs'"
  unfolding solved_handle_def query_api_def
  by (auto simp: await_def compute_def is_file_def split: sum.splits option.splits http_outcome.splits)

lemma histbins_eq:
  "histbins n = Inr (map (\<lambda>k. 500 + int k * (if n = 1 then 100 else 200))
                       [0..<(if n = 1 then 34 else 18)])"
  by (simp add: histbins_def py_range_def Let_def)

lemma solved_sends_chart:
  assumes "SendFile (Histogram allratings bins labels) \<in> set (fst (solved env handles))"
  shows "\<exists>evs. for_handles (solved_handle env) handles [] [] = (evs, Inr (Continue allratings)) \<and>
     histbins (length handles) = Inr bins \<and> labels = zip handles (map length allratings) \<and>
     solved env handles = (evs @ [SendFile (Histogram allratings bins labels)], Inr ())"
proof -
  obtain evs r where run: "for_handles (solved_handle env) handles [] [] = (evs, r)"
    by (cases "for_handles (solved_handle env) handles [] []")
  have clean: "\<not> list_ex is_file evs"
    by (rule for_handles_no_file [where body = "solved_handle env", OF _ run])
       (auto dest: solved_handle_no_file)
  then have nf: "SendFile f \<notin> set evs" for f
    by (auto simp: list_ex_iff is_file_def)
  show ?thesis
  proof (cases "handles = [] \<or> length handles > 5")
    case True
    with assms show ?thesis by (auto simp: solved_def)
  next
    case False
    then have s: "solved env handles =
        await (evs, r) (\<lambda>evs s.
        case s of
          Return \<Rightarrow> (evs, Inr ())
        | Continue allratings \<Rightarrow>
            compute evs (histbins (length handles)) (\<lambda>bins.
            (evs @ [SendFile (Histogram allratings bins
                       (zip handles (map length allratings)))],
             Inr ())))"
      by (simp add: solved_def run)
    show ?thesis
    proof (cases r)
      case (Inl e)
      with assms s nf show ?thesis by simp
    next
      case (Inr st)
      show ?thesis
      proof (cases st)
        case Return
        with assms s nf Inr show ?thesis by simp
      next
        case (Continue all)
        obtain bins' where b: "histbins (length handles) = Inr bins'"
          by (simp add: histbins_eq)
        from assms s nf Inr Continue b show ?thesis using run by auto
      qed
    qed
  qed
qed

section \<open>The commands at the sample responses\<close>

lemma sample_recommend:
  "recommend sample_probjson sample_infojson sample_subsjson =
     Inr [((KStr ''Watermelon'', KNum 1500), JInt 4, JStr ''A'')]"
  by code_simp

lemma sample_solved:
  "solved sample_api [''tourist'', ''newcomer''] =
     ([Request ''user.status'' (Some [(''handle'', JStr ''tourist'')]),
       Request ''user.status'' (Some [(''handle'', JStr ''newcomer'')]),
       SendFile (Histogram [[KNum 1500], []]
         [500, 700, 900, 1100, 1300, 1500, 1700, 1900, 2100, 2300, 2500, 2700,
          2900, 3100, 3300, 3500, 3700, 3900]
         [(''tourist'', 1), (''newcomer'', 0)])],
      Inr ())"
  by code_simp


lemma offline_fetches:
  "query_api sample_api [] ''problemset.problems'' None =
     ([Request ''problemset.problems'' None], Inr sample_probjson)"
  "query_api sample_api [Request ''problemset.problems'' None] ''user.info''
       (Some [(''handles'', JStr ''offline'')]) =
     ([Request ''problemset.problems'' None,
       Request ''user.info'' (Some [(''handles'', JStr ''offline'')])], Inr sample_infojson)"
  "query_api sample_api
       [Request ''problemset.problems'' None,
        Request ''user.info'' (Some [(''handles'', JStr ''offline'')])] ''user.status''
       (Some [(''handle'', JStr ''offline'')]) =
     ([Request ''problemset.problems'' None,
       Request ''user.info'' (Some [(''handles'', JStr ''offline'')]),
       Request ''user.status'' (Some [(''handle'', JStr ''offline'')])], Inr JNull)"
  by (simp_all add: query_api_def sample_api_def)

lemma sample_rating_loop:
  "for_handles (rating_handle sample_api Inr) [''tourist''] [] ([], []) =
     ([Request ''user.rating'' (Some [(''handle'', JStr ''tourist'')])],
      Inr (Continue ([([1000], [JInt 1500])], [JInt 1500])))"
  by code_simp

lemma sample_solved_loop:
  "for_handles (solved_handle sample_api) [''tourist''] [] [] =
     ([Request ''user.status'' (Some [(''handle'', JStr ''tourist'')])],
      Inr (Continue [[KNum 1500]]))"
  by code_simp

lemma sample_failed_fields:
  "getitem sample_failed ''status'' = Inr (JStr ''FAILED'')"
  "getitem sample_failed ''comment'' = Inr (JStr ''handle: User with handle nobody not found'')"
  "contains ''not found'' (JStr ''handle: User with handle nobody not found'') = Inr True"
  by code_simp+

lemma sample_api_nobody:
  "sample_api evs ''user.rating'' (Some [(''handle'', JStr ''nobody'')]) = Decoded sample_failed"
  "sample_api evs ''user.status'' (Some [(''handle'', JStr ''nobody'')]) = Decoded sample_failed"
  by (simp_all add: sample_api_def)

lemma sample_api_offline:
  "snd (query_api sample_api evs ''user.rating'' (Some [(''handle'', JStr ''offline'')])) = Inr JNull"
  "snd (query_api sample_api evs ''user.status'' (Some [(''handle'', JStr ''offline'')])) = Inr JNull"
  "sample_api evs ''user.rating'' (Some [(''handle'', JStr ''offline'')]) = ClientConnectionError"
  by (simp_all add: sample_api_def query_api_def)

lemma sample_api_newcomer:
  "sample_api evs ''user.rating'' (Some [(''handle'', JStr ''newcomer'')]) = Decoded sample_empty"
  by (simp add: sample_api_def)

lemma sample_empty_fields:
  "getitem sample_empty ''status'' = Inr (JStr ''OK'')"
  "getitem sample_empty ''result'' = Inr (JList [])"
  by code_simp+

lemma sample_api_tourist:
  "sample_api [] ''user.status'' (Some [(''handle'', JStr ''tourist'')]) = Decoded sample_subsjson"
  by (simp add: sample_api_def)

section \<open>The claims\<close>



text \<open>
  C2. When lines 47 to 69 of \<^verbatim>\<open>gitgud\<close> raise nothing, \<^verbatim>\<open>recommendations\<close> is the
  set subtraction of the claim. The bucket \<open>b\<close> is 500 when the user has no rating
  and \<^verbatim>\<open>round_rating\<close> of the rating otherwise. Every candidate (tags without
  \<^verbatim>\<open>'*special'\<close>, rating equal to \<open>b\<close>, a \<^verbatim>\<open>contestId\<close>) has an entry, every submission
  with verdict \<^verbatim>\<open>"OK"\<close> and a rating field has a key, and the keys of
  \<^verbatim>\<open>recommendations\<close> are the keys of the candidates less the keys solved; each
  key that is left maps to the \<^verbatim>\<open>(contestId, index)\<close> of the last candidate with that key.
\<close>

theorem recommend_set_subtraction:
  assumes "recommend probjson infojson subsjson = Inr recs"
  shows "\<exists>b user ur ps ss.
     andthen (getitem infojson ''result'') getitem0 = Inr user \<and>
     dict_get user ''rating'' = Inr ur \<and>
     (ur = JNull \<and> b = 500 \<or> (\<exists>n. eq_int ur n \<and> b = round_rating n)) \<and>
     problems_of probjson = Inr ps \<and> submissions_of subsjson = Inr ss \<and>
     (\<forall>p\<in>set ps. candidate b p \<longrightarrow> candidate_entry b p \<noteq> None) \<and>
     (\<forall>s\<in>set ss. accepted s \<longrightarrow> solved_key s \<noteq> None) \<and>
     fst ` set recs = fst ` set (candidate_entries b ps) - set (solved_keys ss) \<and>
     map_of recs = map_of (rev (candidate_entries b ps)) |` (- set (solved_keys ss)) \<and>
     distinct (map fst recs)"
proof -
  from recommend_parts [OF assms] obtain b ps ss candidates where
    b: "bucket infojson = Inr b" and ps: "problems_of probjson = Inr ps" and
    ss: "submissions_of subsjson = Inr ss" and
    c: "for_each (consider_problem b) ps [] = Inr candidates" and
    r: "for_each drop_solved ss candidates = Inr recs"
    by blast
  from bucket_cases [OF b] obtain user ur where
    u1: "andthen (getitem infojson ''result'') getitem0 = Inr user" and
    u2: "dict_get user ''rating'' = Inr ur" and
    u3: "ur = JNull \<and> b = 500 \<or> (\<exists>n. eq_int ur n \<and> b = round_rating n)"
    by blast
  have ce: "\<forall>p\<in>set ps. candidate b p \<longrightarrow> candidate_entry b p \<noteq> None"
  proof (intro ballI impI)
    fix p assume p: "p \<in> set ps" and cp: "candidate b p"
    from for_each_member [OF c p] obtain s0 s1 where "consider_problem b p s0 = Inr s1" by blast
    from candidate_has_entry [OF this cp] show "candidate_entry b p \<noteq> None" .
  qed
  have sk: "\<forall>s\<in>set ss. accepted s \<longrightarrow> solved_key s \<noteq> None"
  proof (intro ballI impI)
    fix s assume s: "s \<in> set ss" and a: "accepted s"
    from for_each_member [OF r s] obtain s0 s1 where "drop_solved s s0 = Inr s1" by blast
    from accepted_has_key [OF this a] show "solved_key s \<noteq> None" .
  qed
  from candidates_loop [OF c] have c1: "map_of candidates = map_of (rev (candidate_entries b ps))"
    and c2: "distinct (map fst candidates)" by simp_all
  from solved_loop [OF r] c2 have r1: "map_of recs = map_of candidates |` (- set (solved_keys ss))"
    and r2: "distinct (map fst recs)" by simp_all
  have m: "map_of recs = map_of (rev (candidate_entries b ps)) |` (- set (solved_keys ss))"
    using r1 c1 by simp
  have "fst ` set recs = dom (map_of recs)" by (simp add: dom_map_of_conv_image_fst)
  also have "\<dots> = dom (map_of (rev (candidate_entries b ps))) - set (solved_keys ss)"
    by (auto simp: m restrict_map_def dom_def split: if_splits)
  also have "\<dots> = fst ` set (candidate_entries b ps) - set (solved_keys ss)"
    by (simp add: dom_map_of_conv_image_fst)
  finally have k: "fst ` set recs = fst ` set (candidate_entries b ps) - set (solved_keys ss)" .
  from u1 u2 u3 ps ss ce sk k m r2 show ?thesis by (intro exI conjI)
qed

text \<open>The theorem of C2 at the sample responses.\<close>

theorem recommend_set_subtraction_witness:
  "recommend sample_probjson sample_infojson sample_subsjson =
     Inr [((KStr ''Watermelon'', KNum 1500), JInt 4, JStr ''A'')] \<and>
   (\<exists>b ps ss. problems_of sample_probjson = Inr ps \<and> submissions_of sample_subsjson = Inr ss \<and>
      fst ` set [((KStr ''Watermelon'', KNum 1500), (JInt 4, JStr ''A''))] =
        fst ` set (candidate_entries b ps) - set (solved_keys ss))"
proof -
  have "\<exists>b ps ss. problems_of sample_probjson = Inr ps \<and> submissions_of sample_subsjson = Inr ss \<and>
      fst ` set [((KStr ''Watermelon'', KNum 1500), (JInt 4, JStr ''A''))] =
        fst ` set (candidate_entries b ps) - set (solved_keys ss)"
    using recommend_set_subtraction [OF sample_recommend]
    by (elim exE conjE, intro exI conjI)
  with sample_recommend show ?thesis by (intro conjI)
qed

text \<open>
  C3. \<^verbatim>\<open>round_rating\<close> gives 100 at 149, 200 at 150, 1600 at 1649, 1700 at 1650 and 0
  at 0, and rounds a rating to the nearest multiple of 100, a remainder of 50
  rounding up: the result is a multiple of 100 that lies above the rating less 50
  and at most 50 above it. This holds for every integer, the non-negative ones among
  them.
\<close>

theorem round_rating_nearest:
  "round_rating 149 = 100 \<and> round_rating 150 = 200 \<and> round_rating 1649 = 1600 \<and>
   round_rating 1650 = 1700 \<and> round_rating 0 = 0 \<and>
   (\<forall>r. 100 dvd round_rating r \<and> r - 50 < round_rating r \<and> round_rating r \<le> r + 50)"
proof -
  have samples: "round_rating 149 = 100 \<and> round_rating 150 = 200 \<and> round_rating 1649 = 1600 \<and>
    round_rating 1650 = 1700 \<and> round_rating 0 = 0"
    by (simp add: round_rating_def)
  have nearest: "100 dvd round_rating r \<and> r - 50 < round_rating r \<and> round_rating r \<le> r + 50" for r
    unfolding round_rating_def Let_def by presburger
  show ?thesis using samples nearest by blast
qed

text \<open>
  C4, as amended. The bin edges of \<^verbatim>\<open>solved\<close> start at 500 and step by 100 for one
  handle, ending at 3800, and by 200 for any other number of handles (two to five
  among them), ending at 3900; the chart that the command sends has these edges.
\<close>

theorem histbins_edges:
  "histbins n = Inr (map (\<lambda>k. 500 + int k * (if n = 1 then 100 else 200))
                       [0..<(if n = 1 then 34 else 18)]) \<and>
   (\<forall>allratings bins labels.
      SendFile (Histogram allratings bins labels) \<in> set (fst (solved env handles)) \<longrightarrow>
      histbins (length handles) = Inr bins \<and> hd bins = 500 \<and>
      last bins = (if length handles = 1 then 3800 else 3900))"
proof -
  have hd_last: "hd bins = 500 \<and> last bins = (if n = 1 then 3800 else 3900)"
    if "histbins n = Inr bins" for n bins
    using that unfolding histbins_eq by (auto simp: hd_map last_map)
  show ?thesis using histbins_eq solved_sends_chart hd_last by blast
qed

text \<open>The theorem of C4 at the chart that \<^verbatim>\<open>solved\<close> sends for two sample handles.\<close>

theorem histbins_edges_witness:
  "SendFile (Histogram [[KNum 1500], []]
         [500, 700, 900, 1100, 1300, 1500, 1700, 1900, 2100, 2300, 2500, 2700,
          2900, 3100, 3300, 3500, 3700, 3900]
         [(''tourist'', 1), (''newcomer'', 0)])
     \<in> set (fst (solved sample_api [''tourist'', ''newcomer''])) \<and>
   histbins (length [''tourist'', ''newcomer'']) =
     Inr [500, 700, 900, 1100, 1300, 1500, 1700, 1900, 2100, 2300, 2500, 2700,
          2900, 3100, 3300, 3500, 3700, 3900]"
proof -
  have m: "SendFile (Histogram [[KNum 1500], []]
         [500, 700, 900, 1100, 1300, 1500, 1700, 1900, 2100, 2300, 2500, 2700,
          2900, 3100, 3300, 3500, 3700, 3900]
         [(''tourist'', 1), (''newcomer'', 0)])
     \<in> set (fst (solved sample_api [''tourist'', ''newcomer'']))"
    unfolding sample_solved by simp
  note h = histbins_edges [of 2 sample_api "[''tourist'', ''newcomer'']", THEN conjunct2,
      THEN spec, THEN spec, THEN spec, THEN mp, OF m]
  from h have "histbins (length [''tourist'', ''newcomer'']) =
     Inr [500, 700, 900, 1100, 1300, 1500, 1700, 1900, 2100, 2300, 2500, 2700,
          2900, 3100, 3300, 3500, 3700, 3900]"
    by (rule conjunct1)
  with m show ?thesis by (intro conjI)
qed

text \<open>
  C4 as stated fails for two handles: the edges end at 3900, and 3800 is not an
  edge.
\<close>

theorem histbins_counterexample:
  "\<exists>bins. histbins 2 = Inr bins \<and> last bins = 3900 \<and> 3800 \<notin> set bins"
  by (simp add: histbins_def py_range_def Let_def upt_rec)

text \<open>
  C5. With no handle or more than five, \<^verbatim>\<open>rating\<close> and \<^verbatim>\<open>solved\<close> send the message
  about the number of handles and return; that message is their only event, so no
  request is made.
\<close>

theorem handle_count_rejected:
  "handles = [] \<or> 5 < length handles \<Longrightarrow>
   rating env fromtimestamp handles =
     ([Send ''Number of handles must be between 1 and 5''], Inr ()) \<and>
   solved env handles = ([Send ''Number of handles must be between 1 and 5''], Inr ())"
  by (auto simp: rating_def solved_def)

text \<open>The theorem of C5 at no handle for \<^verbatim>\<open>rating\<close> and at six handles for \<^verbatim>\<open>solved\<close>.\<close>

theorem handle_count_rejected_witness:
  "rating sample_api Inr [] = ([Send ''Number of handles must be between 1 and 5''], Inr ()) \<and>
   solved sample_api [''a'', ''b'', ''c'', ''d'', ''e'', ''f''] =
     ([Send ''Number of handles must be between 1 and 5''], Inr ())"
  using handle_count_rejected [of "[]" sample_api Inr]
    handle_count_rejected [of "[''a'', ''b'', ''c'', ''d'', ''e'', ''f'']" sample_api Inr]
  by simp

text \<open>
  C6. Let the handles before \<open>handle\<close> be charted without a return or an exception,
  and let the response for \<open>handle\<close> be decoded with status \<^verbatim>\<open>"FAILED"\<close> and a comment.
  Then \<^verbatim>\<open>rating\<close> and \<^verbatim>\<open>solved\<close> make no request after the one for \<open>handle\<close>, send one
  message and return: \<^verbatim>\<open>Handle not found\<close> with the handle when the comment contains
  \<^verbatim>\<open>'not found'\<close>, the denial message otherwise. No chart is sent.
\<close>

theorem failed_response_aborts:
  assumes hs: "handles = before @ handle # after" and len: "length handles \<le> 5"
    and st: "getitem respjson ''status'' = Inr (JStr ''FAILED'')"
    and co: "getitem respjson ''comment'' = Inr comment"
    and nf: "contains ''not found'' comment = Inr not_found"
  shows "(for_handles (rating_handle env fts) before [] ([], []) = (evs, Inr (Continue v)) \<and>
      env evs ''user.rating'' (Some [(''handle'', JStr handle)]) = Decoded respjson \<longrightarrow>
        rating env fts handles =
          (requests ''user.rating'' (before @ [handle]) @
           [Send (if not_found then ''Handle not found: `'' @ handle @ ''`''
                  else ''Codeforces API denied the request, please make sure handles are valid.'')],
           Inr ()) \<and>
        \<not> list_ex is_file (fst (rating env fts handles))) \<and>
     (for_handles (solved_handle env) before [] [] = (evs, Inr (Continue a)) \<and>
      env evs ''user.status'' (Some [(''handle'', JStr handle)]) = Decoded respjson \<longrightarrow>
        solved env handles =
          (requests ''user.status'' (before @ [handle]) @
           [Send (if not_found then ''Handle not found: `'' @ handle @ ''`''
                  else ''Codeforces API denied the request, please make sure handles are valid.'')],
           Inr ()) \<and>
        \<not> list_ex is_file (fst (solved env handles)))"
proof -
  let ?message = "if not_found then ''Handle not found: `'' @ handle @ ''`''
                  else ''Codeforces API denied the request, please make sure handles are valid.''"
  note f = reply_failure_FAILED [OF st co nf, of handle]
  have r: "rating env fts handles = (requests ''user.rating'' (before @ [handle]) @ [Send ?message], Inr ())"
    if run: "for_handles (rating_handle env fts) before [] ([], []) = (evs, Inr (Continue v))"
    and d: "env evs ''user.rating'' (Some [(''handle'', JStr handle)]) = Decoded respjson"
  proof -
    have q: "query_api env evs ''user.rating'' (Some [(''handle'', JStr handle)]) =
             (evs @ [Request ''user.rating'' (Some [(''handle'', JStr handle)])], Inr respjson)"
      by (simp add: query_api_def d)
    from rating_returns [OF hs len run q f] rating_loop_events [OF run]
    show ?thesis by (simp add: requests_def)
  qed
  have s: "solved env handles = (requests ''user.status'' (before @ [handle]) @ [Send ?message], Inr ())"
    if run: "for_handles (solved_handle env) before [] [] = (evs, Inr (Continue a))"
    and d: "env evs ''user.status'' (Some [(''handle'', JStr handle)]) = Decoded respjson"
  proof -
    have q: "query_api env evs ''user.status'' (Some [(''handle'', JStr handle)]) =
             (evs @ [Request ''user.status'' (Some [(''handle'', JStr handle)])], Inr respjson)"
      by (simp add: query_api_def d)
    from solved_returns [OF hs len run q f] solved_loop_events [OF run]
    show ?thesis by (simp add: requests_def)
  qed
  have nofile: "\<not> list_ex is_file (requests path hs @ [Send m])" for path hs m
    using no_file_requests [of path hs] by (simp add: is_file_def)
  show ?thesis using r s nofile by auto
qed

text \<open>The theorem of C6 at a second handle that Codeforces does not know.\<close>

theorem failed_response_aborts_witness:
  "rating sample_api Inr [''tourist'', ''nobody'', ''petr''] =
     (requests ''user.rating'' ([''tourist''] @ [''nobody'']) @
      [Send (''Handle not found: `'' @ ''nobody'' @ ''`'')], Inr ()) \<and>
   solved sample_api [''tourist'', ''nobody'', ''petr''] =
     (requests ''user.status'' ([''tourist''] @ [''nobody'']) @
      [Send (''Handle not found: `'' @ ''nobody'' @ ''`'')], Inr ())"
proof -
  have hs: "[''tourist'', ''nobody'', ''petr''] = [''tourist''] @ ''nobody'' # [''petr'']" by simp
  have len: "length [''tourist'', ''nobody'', ''petr''] \<le> 5" by simp
  note t = failed_response_aborts [OF hs len sample_failed_fields]
  have r: "rating sample_api Inr [''tourist'', ''nobody'', ''petr''] =
     (requests ''user.rating'' ([''tourist''] @ [''nobody'']) @
      [Send (if True then ''Handle not found: `'' @ ''nobody'' @ ''`''
             else ''Codeforces API denied the request, please make sure handles are valid.'')],
      Inr ()) \<and>
     \<not> list_ex is_file (fst (rating sample_api Inr [''tourist'', ''nobody'', ''petr'']))"
    by (rule t [THEN conjunct1, THEN mp, OF conjI, OF sample_rating_loop sample_api_nobody(1)])
  have s: "solved sample_api [''tourist'', ''nobody'', ''petr''] =
     (requests ''user.status'' ([''tourist''] @ [''nobody'']) @
      [Send (if True then ''Handle not found: `'' @ ''nobody'' @ ''`''
             else ''Codeforces API denied the request, please make sure handles are valid.'')],
      Inr ()) \<and>
     \<not> list_ex is_file (fst (solved sample_api [''tourist'', ''nobody'', ''petr'']))"
    by (rule t [THEN conjunct2, THEN mp, OF conjI, OF sample_solved_loop sample_api_nobody(2)])
  from r [THEN conjunct1] s [THEN conjunct1] show ?thesis by simp
qed

text \<open>
  C7. \<^verbatim>\<open>query_api\<close> returns \<^verbatim>\<open>None\<close> when the request raises
  \<^verbatim>\<open>aiohttp.ClientConnectionError\<close>. When the response for \<open>handle\<close> is \<^verbatim>\<open>None\<close>, the
  handles before it charted, \<^verbatim>\<open>rating\<close> and \<^verbatim>\<open>solved\<close> send
  \<^verbatim>\<open>'Error connecting to Codeforces API'\<close> and return: the request for \<open>handle\<close> is the
  last one and no chart is sent.
\<close>

theorem connection_error_aborts:
  assumes hs: "handles = before @ handle # after" and len: "length handles \<le> 5"
  shows "(env evs path ps = ClientConnectionError \<longrightarrow>
        query_api env evs path ps = (evs @ [Request path ps], Inr JNull)) \<and>
     (for_handles (rating_handle env fts) before [] ([], []) = (evs, Inr (Continue v)) \<and>
      snd (query_api env evs ''user.rating'' (Some [(''handle'', JStr handle)])) = Inr JNull \<longrightarrow>
        rating env fts handles =
          (requests ''user.rating'' (before @ [handle]) @
           [Send ''Error connecting to Codeforces API''], Inr ())) \<and>
     (for_handles (solved_handle env) before [] [] = (evs, Inr (Continue a)) \<and>
      snd (query_api env evs ''user.status'' (Some [(''handle'', JStr handle)])) = Inr JNull \<longrightarrow>
        solved env handles =
          (requests ''user.status'' (before @ [handle]) @
           [Send ''Error connecting to Codeforces API''], Inr ()))"
proof -
  have r: "rating env fts handles =
          (requests ''user.rating'' (before @ [handle]) @ [Send ''Error connecting to Codeforces API''], Inr ())"
    if run: "for_handles (rating_handle env fts) before [] ([], []) = (evs, Inr (Continue v))"
    and d: "snd (query_api env evs ''user.rating'' (Some [(''handle'', JStr handle)])) = Inr JNull"
  proof -
    have q: "query_api env evs ''user.rating'' (Some [(''handle'', JStr handle)]) =
             (evs @ [Request ''user.rating'' (Some [(''handle'', JStr handle)])], Inr JNull)"
      using d by (simp add: query_api_def)
    from rating_returns [OF hs len run q reply_failure_None] rating_loop_events [OF run]
    show ?thesis by (simp add: requests_def)
  qed
  have s: "solved env handles =
          (requests ''user.status'' (before @ [handle]) @ [Send ''Error connecting to Codeforces API''], Inr ())"
    if run: "for_handles (solved_handle env) before [] [] = (evs, Inr (Continue a))"
    and d: "snd (query_api env evs ''user.status'' (Some [(''handle'', JStr handle)])) = Inr JNull"
  proof -
    have q: "query_api env evs ''user.status'' (Some [(''handle'', JStr handle)]) =
             (evs @ [Request ''user.status'' (Some [(''handle'', JStr handle)])], Inr JNull)"
      using d by (simp add: query_api_def)
    from solved_returns [OF hs len run q reply_failure_None] solved_loop_events [OF run]
    show ?thesis by (simp add: requests_def)
  qed
  show ?thesis using r s by (auto simp: query_api_def)
qed

text \<open>The theorem of C7 at a second handle whose request fails to connect.\<close>

theorem connection_error_aborts_witness:
  "query_api sample_api [] ''user.rating'' (Some [(''handle'', JStr ''offline'')]) =
     ([] @ [Request ''user.rating'' (Some [(''handle'', JStr ''offline'')])], Inr JNull) \<and>
   rating sample_api Inr [''tourist'', ''offline'', ''petr''] =
     (requests ''user.rating'' ([''tourist''] @ [''offline'']) @
      [Send ''Error connecting to Codeforces API''], Inr ()) \<and>
   solved sample_api [''tourist'', ''offline'', ''petr''] =
     (requests ''user.status'' ([''tourist''] @ [''offline'']) @
      [Send ''Error connecting to Codeforces API''], Inr ())"
proof -
  have hs: "[''tourist'', ''offline'', ''petr''] = [''tourist''] @ ''offline'' # [''petr'']" by simp
  have len: "length [''tourist'', ''offline'', ''petr''] \<le> 5" by simp
  note t = connection_error_aborts [OF hs len]
  have q: "query_api sample_api [] ''user.rating'' (Some [(''handle'', JStr ''offline'')]) =
     ([] @ [Request ''user.rating'' (Some [(''handle'', JStr ''offline'')])], Inr JNull)"
    by (rule connection_error_aborts [where env = sample_api and evs = "[]" and
          path = "''user.rating''" and ps = "Some [(''handle'', JStr ''offline'')]",
          OF hs len, THEN conjunct1, THEN mp, OF sample_api_offline(3)])
  have r: "rating sample_api Inr [''tourist'', ''offline'', ''petr''] =
     (requests ''user.rating'' ([''tourist''] @ [''offline'']) @
      [Send ''Error connecting to Codeforces API''], Inr ())"
    by (rule t [THEN conjunct2, THEN conjunct1, THEN mp, OF conjI,
          OF sample_rating_loop sample_api_offline(1)])
  have s: "solved sample_api [''tourist'', ''offline'', ''petr''] =
     (requests ''user.status'' ([''tourist''] @ [''offline'']) @
      [Send ''Error connecting to Codeforces API''], Inr ())"
    by (rule t [THEN conjunct2, THEN conjunct2, THEN mp, OF conjI,
          OF sample_solved_loop sample_api_offline(2)])
  from q r s show ?thesis by (intro conjI)
qed

text \<open>
  C8, as amended. Let \<^verbatim>\<open>solved\<close> send its chart, and let \<open>respjson\<close> be the response
  for \<open>handle\<close>. The set \<^verbatim>\<open>problems\<close> of that handle holds exactly the pairs of the
  submissions whose verdict is \<^verbatim>\<open>"OK"\<close> and whose rating is true as a condition
  (defined, and not 0, \<^verbatim>\<open>False\<close> or empty), each pair once. The series plotted for the
  handle is the list of the ratings of that set, and the count in its label is the
  size of the set.
\<close>

theorem solved_series:
  assumes hs: "handles = before @ handle # after"
    and run: "for_handles (solved_handle env) before [] [] = (evs, Inr (Continue a))"
    and d: "env evs ''user.status'' (Some [(''handle'', JStr handle)]) = Decoded respjson"
    and chart: "SendFile (Histogram allratings bins labels) \<in> set (fst (solved env handles))"
  shows "\<exists>ss problems.
     submissions_of respjson = Inr ss \<and> solved_problems respjson = Inr problems \<and>
     distinct problems \<and> set problems = set (pairs_where ok_truthy ss) \<and>
     (\<forall>sub\<in>set ss. ok_truthy sub \<longrightarrow> (\<exists>k. solved_pair sub = Inr k)) \<and>
     length allratings = length handles \<and> length labels = length handles \<and>
     allratings ! length before = map snd problems \<and>
     mset (allratings ! length before) = image_mset snd (mset_set (set (pairs_where ok_truthy ss))) \<and>
     labels ! length before = (handle, card (set (pairs_where ok_truthy ss)))"
proof -
  from solved_sends_chart [OF chart] obtain evsF where
    full: "for_handles (solved_handle env) handles [] [] = (evsF, Inr (Continue allratings))" and
    lab: "labels = zip handles (map length allratings)"
    by blast
  have "for_handles (solved_handle env) handles [] [] =
        for_handles (solved_handle env) (handle # after) evs a"
    unfolding hs by (rule for_handles_append [OF run])
  with full have "for_handles (solved_handle env) (handle # after) evs a =
                  (evsF, Inr (Continue allratings))" by simp
  then obtain evs1 a1 where
    b: "solved_handle env handle evs a = (evs1, Inr (Continue a1))" and
    r: "for_handles (solved_handle env) after evs1 a1 = (evsF, Inr (Continue allratings))"
    by (auto split: prod.splits sum.splits step.splits)
  from solved_handle_step [OF b] obtain respjson' problems where
    q: "query_api env evs ''user.status'' (Some [(''handle'', JStr handle)]) = (evs1, Inr respjson')" and
    p: "solved_problems respjson' = Inr problems" and a1: "a1 = a @ [map snd problems]"
    by blast
  from q d have "respjson' = respjson" by (simp add: query_api_def)
  with p have p': "solved_problems respjson = Inr problems" by simp
  from solved_problems_set [OF p'] obtain ss where
    ss: "submissions_of respjson = Inr ss" and
    def: "\<forall>sub\<in>set ss. ok_truthy sub \<longrightarrow> (\<exists>k. solved_pair sub = Inr k)" and
    set: "set problems = set (pairs_where ok_truthy ss)" and dist: "distinct problems"
    by blast
  from solved_loop_grows [OF run] have la: "length a = length before" by auto
  from solved_loop_grows [OF r] obtain ext where
    all: "allratings = a1 @ ext" and le: "length ext = length after" by blast
  have len: "length allratings = length handles"
    by (simp add: all a1 la le hs)
  have nth: "allratings ! length before = map snd problems"
    by (simp add: all a1 la [symmetric] nth_append)
  have lt: "length before < length handles" by (simp add: hs)
  have ms: "mset (map snd problems) = image_mset snd (mset_set (set (pairs_where ok_truthy ss)))"
    using dist set by (simp add: mset_set_set [symmetric])
  have card: "length problems = card (set (pairs_where ok_truthy ss))"
    using dist set distinct_card [of problems] by simp
  have "labels ! length before = (handles ! length before, length (allratings ! length before))"
    using lt len by (simp add: lab)
  then have l: "labels ! length before = (handle, card (set (pairs_where ok_truthy ss)))"
    by (simp add: nth card hs)
  have ll: "length labels = length handles" by (simp add: lab len)
  show ?thesis using ss p' dist set def len ll nth ms l by auto
qed

text \<open>The theorem of C8 at the first of two sample handles, who solved one problem twice.\<close>

theorem solved_series_witness:
  "SendFile (Histogram [[KNum 1500], []]
         [500, 700, 900, 1100, 1300, 1500, 1700, 1900, 2100, 2300, 2500, 2700,
          2900, 3100, 3300, 3500, 3700, 3900]
         [(''tourist'', 1), (''newcomer'', 0)])
     \<in> set (fst (solved sample_api [''tourist'', ''newcomer''])) \<and>
   (\<exists>ss problems.
      submissions_of sample_subsjson = Inr ss \<and> solved_problems sample_subsjson = Inr problems \<and>
      distinct problems \<and> set problems = set (pairs_where ok_truthy ss) \<and>
      [[KNum 1500], []] ! length ([] :: string list) = map snd problems \<and>
      [(''tourist'', 1), (''newcomer'', 0)] ! length ([] :: string list) =
        (''tourist'', card (set (pairs_where ok_truthy ss))))"
proof -
  have hs: "[''tourist'', ''newcomer''] = [] @ ''tourist'' # [''newcomer'']" by simp
  have run: "for_handles (solved_handle sample_api) [] [] [] = ([], Inr (Continue []))" by simp
  have chart: "SendFile (Histogram [[KNum 1500], []]
         [500, 700, 900, 1100, 1300, 1500, 1700, 1900, 2100, 2300, 2500, 2700,
          2900, 3100, 3300, 3500, 3700, 3900]
         [(''tourist'', 1), (''newcomer'', 0)])
     \<in> set (fst (solved sample_api [''tourist'', ''newcomer'']))"
    unfolding sample_solved by simp
  have "\<exists>ss problems.
      submissions_of sample_subsjson = Inr ss \<and> solved_problems sample_subsjson = Inr problems \<and>
      distinct problems \<and> set problems = set (pairs_where ok_truthy ss) \<and>
      [[KNum 1500], []] ! length ([] :: string list) = map snd problems \<and>
      [(''tourist'', 1), (''newcomer'', 0)] ! length ([] :: string list) =
        (''tourist'', card (set (pairs_where ok_truthy ss)))"
    using solved_series [OF hs run sample_api_tourist chart]
    by (elim exE conjE, intro exI conjI)
  with chart show ?thesis by (intro conjI)
qed

text \<open>
  C8 as stated fails for a submission with verdict \<^verbatim>\<open>"OK"\<close> whose problem has the
  rating 0: the rating is defined, and \<^verbatim>\<open>if rating:\<close> leaves the pair out.
\<close>

theorem solved_problems_counterexample:
  "solved_problems
     (JObj [(''status'', JStr ''OK''),
            (''result'', JList [JObj [(''verdict'', JStr ''OK''),
                                      (''problem'', JObj [(''name'', JStr ''A''), (''rating'', JInt 0)])]])]) = Inr [] \<and>
   submissions_of
     (JObj [(''status'', JStr ''OK''),
            (''result'', JList [JObj [(''verdict'', JStr ''OK''),
                                      (''problem'', JObj [(''name'', JStr ''A''), (''rating'', JInt 0)])]])]) =
     Inr [JObj [(''verdict'', JStr ''OK''),
                (''problem'', JObj [(''name'', JStr ''A''), (''rating'', JInt 0)])]] \<and>
   pairs_where ok_defined
     [JObj [(''verdict'', JStr ''OK''),
            (''problem'', JObj [(''name'', JStr ''A''), (''rating'', JInt 0)])]] = [(KStr ''A'', KNum 0)]"
  by (simp add: solved_problems_def submissions_of_def add_solved_def pairs_where_def ok_defined_def
        solved_pair_def getitem_def dict_get_def iterate_def eq_str_def truthy_def hashable_def
        List.map_filter_simps)

text \<open>
  C9. \<^verbatim>\<open>gitgud\<close> does not check its three fetches for \<^verbatim>\<open>None\<close>. When one of them
  returns \<^verbatim>\<open>None\<close> the command ends with an exception and its events are requests
  only: nothing is sent. When all three return \<^verbatim>\<open>None\<close> the exception is the
  \<^verbatim>\<open>TypeError\<close> of reading \<^verbatim>\<open>None['result']\<close>.
\<close>

theorem gitgud_None:
  assumes q1: "query_api env [] ''problemset.problems'' None = (evs1, r1)"
    and q2: "query_api env evs1 ''user.info'' (Some [(''handles'', JStr handle)]) = (evs2, r2)"
    and q3: "query_api env evs2 ''user.status'' (Some [(''handle'', JStr handle)]) = (evs3, r3)"
    and none: "r1 = Inr JNull \<or> r2 = Inr JNull \<or> r3 = Inr JNull"
  shows "(\<exists>e. snd (gitgud env draw handle) = Inl e) \<and>
     (\<forall>ev\<in>set (fst (gitgud env draw handle)). \<exists>path ps. ev = Request path ps) \<and>
     (r1 = Inr JNull \<and> r2 = Inr JNull \<and> r3 = Inr JNull \<longrightarrow>
        gitgud env draw handle = (evs3, Inl TypeError))"
proof -
  have e1: "\<forall>ev\<in>set evs1. \<exists>path ps. ev = Request path ps"
    using query_api_events [OF q1] by simp
  then have e2: "\<forall>ev\<in>set evs2. \<exists>path ps. ev = Request path ps"
    using query_api_events [OF q2] by simp
  then have e3: "\<forall>ev\<in>set evs3. \<exists>path ps. ev = Request path ps"
    using query_api_events [OF q3] by simp
  show ?thesis
  proof (cases r1)
    case (Inl e)
    then have "gitgud env draw handle = (evs1, Inl e)"
      by (simp add: gitgud_def q1)
    then show ?thesis using e1 Inl by simp
  next
    case p: (Inr probjson)
    show ?thesis
    proof (cases r2)
      case (Inl e)
      then have "gitgud env draw handle = (evs2, Inl e)"
        by (simp add: gitgud_def q1 q2 p)
      then show ?thesis using e2 Inl by simp
    next
      case i: (Inr infojson)
      show ?thesis
      proof (cases r3)
        case (Inl e)
        then have "gitgud env draw handle = (evs3, Inl e)"
          by (simp add: gitgud_def q1 q2 q3 p i)
        then show ?thesis using e3 Inl by simp
      next
        case s: (Inr subsjson)
        from none p i s have "probjson = JNull \<or> infojson = JNull \<or> subsjson = JNull" by simp
        from recommend_None [OF this] obtain e where
          re: "recommend probjson infojson subsjson = Inl e" ..
        have g: "gitgud env draw handle = (evs3, Inl e)"
          by (simp add: gitgud_def q1 q2 q3 p i s re)
        have "r1 = Inr JNull \<and> r2 = Inr JNull \<and> r3 = Inr JNull \<longrightarrow> e = TypeError"
          using re p i s recommend_all_None by auto
        then show ?thesis using g e3 by simp
      qed
    qed
  qed
qed

text \<open>The theorem of C9 at a handle whose submissions cannot be fetched.\<close>

theorem gitgud_None_witness:
  "snd (query_api sample_api
       [Request ''problemset.problems'' None,
        Request ''user.info'' (Some [(''handles'', JStr ''offline'')])] ''user.status''
       (Some [(''handle'', JStr ''offline'')])) = Inr JNull \<and>
   (\<exists>e. snd (gitgud sample_api 0 ''offline'') = Inl e)"
proof -
  have "Inr sample_probjson = Inr JNull \<or> Inr sample_infojson = Inr JNull \<or>
        (Inr JNull :: py_error + json) = Inr JNull"
    by simp
  from gitgud_None [OF offline_fetches this, of 0]
  have "\<exists>e. snd (gitgud sample_api 0 ''offline'') = Inl e" by (rule conjunct1)
  then show ?thesis by (simp add: offline_fetches(3))
qed

text \<open>
  C10. When the response of \<^verbatim>\<open>user.rating\<close> for \<open>handle\<close> has status \<^verbatim>\<open>"OK"\<close> and an
  empty result list, the handles before it charted, \<^verbatim>\<open>rating\<close> ends with the
  \<^verbatim>\<open>IndexError\<close> of \<^verbatim>\<open>ratings[-1]\<close>; its events are the requests up to that handle, so
  neither a chart nor a message is sent.
\<close>

theorem rating_empty_history:
  assumes hs: "handles = before @ handle # after" and len: "length handles \<le> 5"
    and run: "for_handles (rating_handle env fts) before [] ([], []) = (evs, Inr (Continue v))"
    and d: "env evs ''user.rating'' (Some [(''handle'', JStr handle)]) = Decoded respjson"
    and st: "getitem respjson ''status'' = Inr (JStr ''OK'')"
    and re: "getitem respjson ''result'' = Inr (JList [])"
  shows "rating env fts handles = (requests ''user.rating'' (before @ [handle]), Inl IndexError)"
proof -
  have q: "query_api env evs ''user.rating'' (Some [(''handle'', JStr handle)]) =
           (evs @ [Request ''user.rating'' (Some [(''handle'', JStr handle)])], Inr respjson)"
    by (simp add: query_api_def d)
  have f: "reply_failure handle respjson = Inr None"
    by (rule reply_failure_ok [OF st]) (simp add: eq_str_def)
  have p: "plot_ratings fts respjson v = Inl IndexError"
    by (simp add: plot_ratings_def re iterate_def)
  have "for_handles (rating_handle env fts) handles [] ([], []) =
        for_handles (rating_handle env fts) (handle # after) evs v"
    unfolding hs by (rule for_handles_append [OF run])
  also have "\<dots> = (evs @ [Request ''user.rating'' (Some [(''handle'', JStr handle)])], Inl IndexError)"
    by (simp add: rating_handle_def q f p)
  finally show ?thesis using hs len rating_loop_events [OF run] by (simp add: rating_def requests_def)
qed

text \<open>The theorem of C10 at a second handle without a rated contest.\<close>

theorem rating_empty_history_witness:
  "rating sample_api Inr [''tourist'', ''newcomer'', ''petr''] =
     (requests ''user.rating'' ([''tourist''] @ [''newcomer'']), Inl IndexError)"
proof -
  have hs: "[''tourist'', ''newcomer'', ''petr''] = [''tourist''] @ ''newcomer'' # [''petr'']" by simp
  have len: "length [''tourist'', ''newcomer'', ''petr''] \<le> 5" by simp
  show ?thesis
    by (rule rating_empty_history [OF hs len sample_rating_loop sample_api_newcomer sample_empty_fields])
qed

end
